theory Spec2Isabelle
  imports Complex_Main
begin

section \<open>Dark matter nucleus capture: the simulation engine of DMNC\_Detector.py\<close>

text \<open>
  The engine is modelled as the source writes it. Python floats are idealised as reals
  (\<open>1e-2\<close> is \<open>1/100\<close>, \<open>np.pi\<close> is \<open>pi\<close>, \<open>==\<close> is equality of reals). The
  pseudo-random generator is an explicit oracle in the \<open>world\<close>: the successive results
  of \<open>rand.random()\<close> and of \<open>rand.randint(0, 1)\<close>, with the number of draws made so
  far. What \<open>print\<close> writes is kept in the world as well. A method that mutates the
  detector returns the detector it leaves behind, also when it raises.
\<close>

subsection \<open>Python values, exceptions, output and the random source\<close>

datatype py_error = ZeroDivisionError | TypeError | KeyError | UnboundLocalError

text \<open>One call of \<open>print\<close>: \<open>print(s)\<close> or \<open>print(s, n)\<close>.\<close>

datatype printed = Print string | PrintInt string int

record world =
  randoms :: "nat \<Rightarrow> real"
  n_random :: nat
  coins :: "nat \<Rightarrow> int"
  n_coin :: nat
  stdout :: "printed list"

text \<open>\<open>rand.random()\<close>: the next value of the oracle.\<close>

definition random_py :: "world \<Rightarrow> real \<times> world" where
  "random_py w = (randoms w (n_random w), w\<lparr>n_random := Suc (n_random w)\<rparr>)"

text \<open>\<open>rand.uniform(a, b)\<close> is \<open>a + (b - a) * random()\<close> in CPython.\<close>

definition uniform :: "real \<Rightarrow> real \<Rightarrow> world \<Rightarrow> real \<times> world" where
  "uniform a b w = (case random_py w of (u, w') \<Rightarrow> (a + (b - a) * u, w'))"

text \<open>\<open>rand.randint(0, 1)\<close>: the next coin of the oracle.\<close>

definition randint01 :: "world \<Rightarrow> int \<times> world" where
  "randint01 w = (coins w (n_coin w), w\<lparr>n_coin := Suc (n_coin w)\<rparr>)"

definition print_py :: "printed \<Rightarrow> world \<Rightarrow> world" where
  "print_py line w = w\<lparr>stdout := stdout w @ [line]\<rparr>"

subsection \<open>Dictionaries\<close>

text \<open>
  A \<open>dict\<close> is the list of its items in insertion order. \<open>d[k] = v\<close> overwrites the
  value of a key that is present, in place, and appends a new key at the end.
\<close>

type_synonym ('k, 'v) dict = "('k \<times> 'v) list"

definition keys :: "('k, 'v) dict \<Rightarrow> 'k list" where
  "keys d = map fst d"

definition getitem :: "('k, 'v) dict \<Rightarrow> 'k \<Rightarrow> py_error + 'v" where
  "getitem d k = (case map_of d k of None \<Rightarrow> Inl KeyError | Some v \<Rightarrow> Inr v)"

fun setitem :: "('k, 'v) dict \<Rightarrow> 'k \<Rightarrow> 'v \<Rightarrow> ('k, 'v) dict" where
  "setitem [] k v = [(k, v)]"
| "setitem ((k', v') # d) k v = (if k' = k then (k, v) # d else (k', v') # setitem d k v)"

subsection \<open>The free functions: \<open>sum_dict_vals\<close> and \<open>key_val_by_weight\<close>\<close>

fun sum_loop :: "('k, real) dict \<Rightarrow> 'k list \<Rightarrow> real \<Rightarrow> py_error + real" where
  "sum_loop dictionary [] total' = Inr total'"
| "sum_loop dictionary (key # ks) total' =
     (case getitem dictionary key of
        Inl e \<Rightarrow> Inl e
      | Inr v \<Rightarrow> sum_loop dictionary ks (total' + v))"

definition sum_dict_vals :: "('k, real) dict \<Rightarrow> py_error + real" where
  "sum_dict_vals dictionary = sum_loop dictionary (keys dictionary) 0"

text \<open>
  \<open>curr_key\<close> starts as the integer \<open>0\<close> and becomes a key of the dictionary in the
  loop: \<open>Zero\<close> is that integer, \<open>Key k\<close> a key.
\<close>

datatype 'k key_or_zero = Zero | Key 'k

definition exited_msg :: string where
  "exited_msg = ''ERROR: \"key_val_by_weight()\" Exited the loop somehow''"

text \<open>
  The scan \<open>for i in range(len(keys))\<close> over the keys that are left, with the locals
  \<open>count\<close>, \<open>curr_key\<close>, \<open>curr_val\<close>; the first equation is the code after the loop.
\<close>

fun scan_loop ::
  "('k, real) dict \<Rightarrow> real \<Rightarrow> 'k list \<Rightarrow> real \<Rightarrow> 'k key_or_zero \<Rightarrow> real \<Rightarrow> world
     \<Rightarrow> (py_error + 'k key_or_zero \<times> real) \<times> world" where
  "scan_loop dictionary weight [] count curr_key curr_val w =
     (Inr (curr_key, curr_val), print_py (Print exited_msg) w)"
| "scan_loop dictionary weight (k # ks) count curr_key curr_val w =
     (case getitem dictionary k of
        Inl e \<Rightarrow> (Inl e, w)
      | Inr v \<Rightarrow>
          if count + v \<ge> weight then (Inr (Key k, v), w)
          else scan_loop dictionary weight ks (count + v) (Key k) v w)"

definition key_val_by_weight ::
  "('k, real) dict \<Rightarrow> world \<Rightarrow> (py_error + 'k key_or_zero \<times> real) \<times> world" where
  "key_val_by_weight dictionary w =
     (case sum_dict_vals dictionary of
        Inl e \<Rightarrow> (Inl e, w)
      | Inr total' \<Rightarrow>
          (case uniform 0 total' w of
             (weight, w1) \<Rightarrow> scan_loop dictionary weight (keys dictionary) 0 Zero 0 w1))"

subsection \<open>The detector\<close>

type_synonym vec3 = "real \<times> real \<times> real"
type_synonym qstate = "int \<times> int \<times> int"

text \<open>
  The fields of the class. \<open>length\<close>, \<open>x\<close>, \<open>y\<close> and \<open>z\<close> carry a suffix, since
  a field is a constant of the theory.
\<close>

record detector =
  length_det :: real
  width :: real
  height :: real
  x_min :: real
  x_max :: real
  y_min :: real
  y_max :: real
  z_min :: real
  z_max :: real
  area_x :: real
  area_y :: real
  area_z :: real
  area_tot :: real
  x_pos :: real
  y_pos :: real
  z_pos :: real
  vx :: real
  vy :: real
  vz :: real
  ux :: real
  uy :: real
  uz :: real
  capture_locs :: "(vec3, qstate key_or_zero) dict"
  photon_energy_list :: "real list"
  num_density :: real
  xsec_cm :: real
  xsec_dict :: "(qstate, real) dict"

text \<open>
  \<open>__init__\<close>: no statement of it can raise on numbers, and it checks nothing; the
  result type has room for a rejection all the same, so that a rejection can be stated.
\<close>

definition Detector_init ::
  "real \<Rightarrow> real \<Rightarrow> real \<Rightarrow> real \<Rightarrow> real \<Rightarrow> (qstate, real) dict \<Rightarrow> py_error + detector" where
  "Detector_init length' width' height' num_density' cross_section_cm cross_sec_dict =
     Inr \<lparr> length_det = length', width = width', height = height',
           x_min = - length' / 2, x_max = length' / 2,
           y_min = - width' / 2, y_max = width' / 2,
           z_min = - height' / 2, z_max = height' / 2,
           area_x = height' * width',
           area_y = height' * length',
           area_z = width' * length',
           area_tot = height' * width' + height' * length' + width' * length',
           x_pos = 0, y_pos = 0, z_pos = 0,
           vx = 0, vy = 0, vz = 0,
           ux = 0, uy = 0, uz = 0,
           capture_locs = [],
           photon_energy_list = [],
           num_density = num_density',
           xsec_cm = cross_section_cm,
           xsec_dict = cross_sec_dict \<rparr>"

text \<open>
  \<open>random_face\<close>: when no branch of the chain is taken the local \<open>face\<close> is unbound
  at \<open>return face\<close>.
\<close>

definition random_face :: "detector \<Rightarrow> world \<Rightarrow> (py_error + string) \<times> world" where
  "random_face D w =
     (case uniform 0 (area_tot D) w of
        (enter_face, w1) \<Rightarrow>
          if enter_face < area_x D then
            (case randint01 w1 of
               (c, w2) \<Rightarrow> (Inr (if c = 0 then ''front'' else ''back''), w2))
          else if enter_face < area_x D + area_y D then
            (case randint01 w1 of
               (c, w2) \<Rightarrow> (Inr (if c = 0 then ''right'' else ''left''), w2))
          else if enter_face \<le> area_tot D then
            (case randint01 w1 of
               (c, w2) \<Rightarrow> (Inr (if c = 0 then ''top'' else ''bottom''), w2))
          else (Inl UnboundLocalError, w1))"

text \<open>
  \<open>random_entrance\<close>. The locals \<open>cos\<close> and \<open>sin\<close> are \<open>cos_t\<close> and \<open>sin_t\<close>;
  \<open>(1 - cos**2)**(0.5)\<close> is the power \<open>powr (1/2)\<close>.
\<close>

definition random_entrance :: "detector \<Rightarrow> world \<Rightarrow> detector \<times> world" where
  "random_entrance D w =
     (case uniform 0 (area_tot D) w of (enter_face, w1) \<Rightarrow>
      case uniform (- 1) 1 w1 of (cos_t, w2) \<Rightarrow>
      case uniform 0 (2 * pi) w2 of (phi, w3) \<Rightarrow>
      case
        (if enter_face < area_x D then
           (if phi > pi / 2 \<and> phi < 3 * pi / 2 then
              (case uniform (y_min D) (y_max D) w3 of (y', w4) \<Rightarrow>
               case uniform (z_min D) (z_max D) w4 of (z', w5) \<Rightarrow>
                 (D\<lparr>x_pos := x_max D, y_pos := y', z_pos := z'\<rparr>, w5))
            else
              (case uniform (y_min D) (y_max D) w3 of (y', w4) \<Rightarrow>
               case uniform (z_min D) (z_max D) w4 of (z', w5) \<Rightarrow>
                 (D\<lparr>x_pos := x_min D, y_pos := y', z_pos := z'\<rparr>, w5)))
         else if enter_face < area_x D + area_y D then
           (if phi > pi then
              (case uniform (x_min D) (x_max D) w3 of (x', w4) \<Rightarrow>
               case uniform (z_min D) (z_max D) w4 of (z', w5) \<Rightarrow>
                 (D\<lparr>x_pos := x', y_pos := y_max D, z_pos := z'\<rparr>, w5))
            else
              (case uniform (x_min D) (x_max D) w3 of (x', w4) \<Rightarrow>
               case uniform (z_min D) (z_max D) w4 of (z', w5) \<Rightarrow>
                 (D\<lparr>x_pos := x', y_pos := y_min D, z_pos := z'\<rparr>, w5)))
         else if enter_face \<le> area_tot D then
           (if cos_t < 0 then
              (case uniform (x_min D) (x_max D) w3 of (x', w4) \<Rightarrow>
               case uniform (y_min D) (y_max D) w4 of (y', w5) \<Rightarrow>
                 (D\<lparr>x_pos := x', y_pos := y', z_pos := z_max D\<rparr>, w5))
            else
              (case uniform (x_min D) (x_max D) w3 of (x', w4) \<Rightarrow>
               case uniform (y_min D) (y_max D) w4 of (y', w5) \<Rightarrow>
                 (D\<lparr>x_pos := x', y_pos := y', z_pos := z_min D\<rparr>, w5)))
         else (D, w3))
      of (D1, w6) \<Rightarrow>
        let sin_t = (1 - cos_t\<^sup>2) powr (1 / 2) in
        (D1\<lparr>ux := sin_t * cos phi, uy := sin_t * sin phi, uz := cos_t\<rparr>, w6))"

definition particle_in_det :: "detector \<Rightarrow> bool" where
  "particle_in_det D =
     (x_pos D \<ge> x_min D \<and>
      y_pos D \<ge> y_min D \<and>
      z_pos D \<ge> z_min D \<and>
      x_pos D \<le> x_max D \<and>
      y_pos D \<le> y_max D \<and>
      z_pos D \<le> z_max D)"

subsection \<open>The capture walk\<close>

text \<open>
  The distance to the next capture, in meters: the two statements that compute
  \<open>cap_dist\<close>. Dividing by a zero product of two Python floats raises.
\<close>

definition cap_dist :: "detector \<Rightarrow> real \<Rightarrow> py_error + real" where
  "cap_dist D rand_num =
     (if num_density D * xsec_cm D = 0 then Inl ZeroDivisionError
      else Inr ((- 1 / (num_density D * xsec_cm D) * ln (1 - rand_num)) * (1 / 100)))"

text \<open>How one run of a loop body ends: the next iteration, \<open>break\<close>, or an exception.\<close>

datatype flow = Next | Break | Raise py_error

text \<open>The body of \<open>for i in range(100)\<close>; it does not read \<open>i\<close>.\<close>

definition walk_step :: "detector \<Rightarrow> world \<Rightarrow> flow \<times> detector \<times> world" where
  "walk_step D w =
     (case random_py w of
        (rand_num, w1) \<Rightarrow>
          if rand_num = 1 then (Break, D, w1)
          else
            (case cap_dist D rand_num of
               Inl e \<Rightarrow> (Raise e, D, w1)
             | Inr d \<Rightarrow>
                 let D1 = D\<lparr>x_pos := x_pos D + ux D * d\<rparr>;
                     D2 = D1\<lparr>y_pos := y_pos D1 + uy D1 * d\<rparr>;
                     D3 = D2\<lparr>z_pos := z_pos D2 + uz D2 * d\<rparr>
                 in if particle_in_det D3 then
                      (case key_val_by_weight (xsec_dict D3) w1 of
                         (Inl e, w2) \<Rightarrow> (Raise e, D3, w2)
                       | (Inr (capture_state, v), w2) \<Rightarrow>
                           (Next,
                            D3\<lparr>capture_locs :=
                                 setitem (capture_locs D3) (x_pos D3, y_pos D3, z_pos D3)
                                   capture_state\<rparr>,
                            w2))
                    else (Break, D3, w1)))"

fun walk_loop :: "nat list \<Rightarrow> detector \<Rightarrow> world \<Rightarrow> py_error option \<times> detector \<times> world" where
  "walk_loop [] D w = (None, D, w)"
| "walk_loop (i # is) D w =
     (case walk_step D w of
        (Next, D1, w1) \<Rightarrow> walk_loop is D1 w1
      | (Break, D1, w1) \<Rightarrow> (None, D1, w1)
      | (Raise e, D1, w1) \<Rightarrow> (Some e, D1, w1))"

definition gen_capture_locs :: "detector \<Rightarrow> world \<Rightarrow> py_error option \<times> detector \<times> world" where
  "gen_capture_locs D w =
     (case (if ux D = 0 \<and> uy D = 0 \<and> uz D = 0 then random_entrance D w else (D, w)) of
        (D1, w1) \<Rightarrow> walk_loop [0..<100] D1 w1)"

subsection \<open>The decay cascade\<close>

text \<open>
  The rate calculator \<open>DMNC_Rates\<close> is not part of the engine: its three functions
  \<open>EB\<close>, \<open>Gamma_tot_B\<close> and \<open>q\<close> are parameters.
\<close>

record rates =
  EB :: "int \<Rightarrow> int \<Rightarrow> real"
  Gamma_tot_B :: "int \<Rightarrow> int \<Rightarrow> int \<Rightarrow> (qstate, real) dict"
  q_fn :: "int \<Rightarrow> int \<Rightarrow> int \<Rightarrow> int \<Rightarrow> real"

definition attention_msg :: string where
  "attention_msg = ''ATTENTION: Did not finish decay. n =''"

text \<open>
  The body of \<open>for i in range(1000)\<close> on the quantum numbers \<open>(n, l, m)\<close>. Indexing
  the integer \<open>0\<close> that the weighted draw returns for an empty dictionary is a
  \<open>TypeError\<close>.
\<close>

definition decay_step ::
  "rates \<Rightarrow> nat \<Rightarrow> qstate \<Rightarrow> detector \<Rightarrow> world \<Rightarrow> flow \<times> qstate \<times> detector \<times> world" where
  "decay_step R i s D w =
     (case s of
        (n, l, m) \<Rightarrow>
          if n \<le> 1 then (Break, s, D, w)
          else
            let decay_dict = Gamma_tot_B R n l m in
            (case sum_dict_vals decay_dict of
               Inl e \<Rightarrow> (Raise e, s, D, w)
             | Inr total_decay_rate \<Rightarrow>
                 (case key_val_by_weight decay_dict w of
                    (Inl e, w1) \<Rightarrow> (Raise e, s, D, w1)
                  | (Inr (new_state, v), w1) \<Rightarrow>
                      (case new_state of
                         Zero \<Rightarrow> (Raise TypeError, s, D, w1)
                       | Key (new_n, new_l, new_m) \<Rightarrow>
                           let D1 = D\<lparr>photon_energy_list :=
                                        photon_energy_list D @ [q_fn R n l new_n new_l]\<rparr>;
                               w2 = (if i = 999
                                     then print_py (PrintInt attention_msg new_n) w1
                                     else w1)
                           in (Next, (new_n, new_l, new_m), D1, w2)))))"

fun decay_loop ::
  "rates \<Rightarrow> nat list \<Rightarrow> qstate \<Rightarrow> detector \<Rightarrow> world \<Rightarrow> py_error option \<times> detector \<times> world" where
  "decay_loop R [] s D w = (None, D, w)"
| "decay_loop R (i # is) s D w =
     (case decay_step R i s D w of
        (Next, s1, D1, w1) \<Rightarrow> decay_loop R is s1 D1 w1
      | (Break, s1, D1, w1) \<Rightarrow> (None, D1, w1)
      | (Raise e, s1, D1, w1) \<Rightarrow> (Some e, D1, w1))"

text \<open>The loop \<open>for location in self.capture_locs.keys()\<close>.\<close>

fun locs_loop ::
  "rates \<Rightarrow> vec3 list \<Rightarrow> detector \<Rightarrow> world \<Rightarrow> py_error option \<times> detector \<times> world" where
  "locs_loop R [] D w = (None, D, w)"
| "locs_loop R (location # ls) D w =
     (case getitem (capture_locs D) location of
        Inl e \<Rightarrow> (Some e, D, w)
      | Inr q_state \<Rightarrow>
          (case q_state of
             Zero \<Rightarrow> (Some TypeError, D, w)
           | Key (n, l, m) \<Rightarrow>
               let D1 = D\<lparr>photon_energy_list := photon_energy_list D @ [EB R n l]\<rparr> in
               (case decay_loop R [0..<1000] (n, l, m) D1 w of
                  (Some e, D2, w1) \<Rightarrow> (Some e, D2, w1)
                | (None, D2, w1) \<Rightarrow> locs_loop R ls D2 w1)))"

definition photon_generation ::
  "rates \<Rightarrow> detector \<Rightarrow> world \<Rightarrow> py_error option \<times> detector \<times> world" where
  "photon_generation R D w =
     (if length (capture_locs D) = 0 then (None, D, w)
      else locs_loop R (keys (capture_locs D)) D w)"

subsection \<open>What the properties speak of\<close>

text \<open>
  The first three draws of \<open>random_entrance\<close> from a world: \<open>enter_face\<close>,
  \<open>cos\<close> and \<open>phi\<close>, as \<open>rand.uniform\<close> computes them.
\<close>

definition face_draw :: "detector \<Rightarrow> world \<Rightarrow> real" where
  "face_draw D w = 0 + (area_tot D - 0) * randoms w (n_random w)"

definition cos_draw :: "world \<Rightarrow> real" where
  "cos_draw w = - 1 + (1 - (- 1)) * randoms w (Suc (n_random w))"

definition phi_draw :: "world \<Rightarrow> real" where
  "phi_draw w = 0 + (2 * pi - 0) * randoms w (Suc (Suc (n_random w)))"

text \<open>
  The two readings of "within the detector bounds" for a position: the faces included,
  as \<open>particle_in_det\<close> tests it, and the faces excluded.
\<close>

definition within_bounds :: "detector \<Rightarrow> vec3 \<Rightarrow> bool" where
  "within_bounds D p =
     (case p of (a, b, c) \<Rightarrow>
        x_min D \<le> a \<and> a \<le> x_max D \<and> y_min D \<le> b \<and> b \<le> y_max D \<and>
        z_min D \<le> c \<and> c \<le> z_max D)"

definition strictly_within_bounds :: "detector \<Rightarrow> vec3 \<Rightarrow> bool" where
  "strictly_within_bounds D p =
     (case p of (a, b, c) \<Rightarrow>
        x_min D < a \<and> a < x_max D \<and> y_min D < b \<and> b < y_max D \<and>
        z_min D < c \<and> c < z_max D)"

text \<open>What the capture walk never writes: the bounds, the direction, the medium, the photons.\<close>

definition same_setup :: "detector \<Rightarrow> detector \<Rightarrow> bool" where
  "same_setup D' D =
     (x_min D' = x_min D \<and> x_max D' = x_max D \<and> y_min D' = y_min D \<and>
      y_max D' = y_max D \<and> z_min D' = z_min D \<and> z_max D' = z_max D \<and>
      ux D' = ux D \<and> uy D' = uy D \<and> uz D' = uz D \<and>
      num_density D' = num_density D \<and> xsec_cm D' = xsec_cm D \<and>
      xsec_dict D' = xsec_dict D \<and> photon_energy_list D' = photon_energy_list D)"


text \<open>The diagnostic of the decay cascade is among the printed lines.\<close>

definition attention_in :: "printed list \<Rightarrow> bool" where
  "attention_in m = (\<exists>n. PrintInt attention_msg n \<in> set m)"

subsection \<open>Concrete inputs\<close>

text \<open>
  A fresh world over given oracles; the oracle that returns the listed values, then
  zeros.
\<close>

definition world0 :: "(nat \<Rightarrow> real) \<Rightarrow> (nat \<Rightarrow> int) \<Rightarrow> world" where
  "world0 rs cs = \<lparr>randoms = rs, n_random = 0, coins = cs, n_coin = 0, stdout = []\<rparr>"

definition draws_of :: "real list \<Rightarrow> nat \<Rightarrow> real" where
  "draws_of xs n = (if n < length xs then xs ! n else 0)"

text \<open>Capture-weight dictionaries with one state and with two.\<close>

definition dict_one :: "(qstate, real) dict" where
  "dict_one = [((2, 0, 0), 1)]"


text \<open>
  Detectors of 2 by 2 by 2 meters, as the constructor returns them: with a positive, a
  negative and a zero number density.
\<close>

definition det_cube :: detector where
  "det_cube = projr (Detector_init 2 2 2 (1 / 1000) 1 dict_one)"

definition det_neg :: detector where
  "det_neg = projr (Detector_init 2 2 2 (- 1) 1 dict_one)"

definition det_zero :: detector where
  "det_zero = projr (Detector_init 2 2 2 0 1 dict_one)"

text \<open>A detector after an entry by the back face at \<open>(-1, 0, 0)\<close> along \<open>(1, 0, 0)\<close>.\<close>

definition entered :: "detector \<Rightarrow> detector" where
  "entered D = D\<lparr>x_pos := - 1, y_pos := 0, z_pos := 0, ux := 1, uy := 0, uz := 0\<rparr>"

text \<open>
  Random sources. \<open>w_half\<close> always draws \<open>1/2\<close>. The next four enter \<open>det_cube\<close>
  by the front face (the second with the coin turned), the right face and the top face.
  \<open>w_back\<close> enters by the back face, stays there for one step (\<open>u = 0\<close>) and leaves
  with the next; \<open>w_neg\<close> enters by the back face and takes one step; \<open>w_stay\<close>
  enters by the back face and draws \<open>0\<close> for ever; \<open>w_one\<close> draws \<open>1\<close> first.
\<close>

definition w_half :: world where
  "w_half = world0 (\<lambda>n. 1 / 2) (\<lambda>n. 0)"

definition w_front :: world where
  "w_front = world0 (draws_of [0, 1 / 2, 1 / 2, 1 / 2, 1 / 2]) (\<lambda>n. 0)"

definition w_front_tails :: world where
  "w_front_tails = world0 (draws_of [0, 1 / 2, 1 / 2, 1 / 2, 1 / 2]) (\<lambda>n. 1)"

definition w_right :: world where
  "w_right = world0 (draws_of [1 / 2, 1 / 2, 3 / 4, 1 / 2, 1 / 2]) (\<lambda>n. 0)"

definition w_top :: world where
  "w_top = world0 (draws_of [3 / 4, 1 / 4, 0, 1 / 2, 1 / 2]) (\<lambda>n. 0)"

definition w_back :: world where
  "w_back = world0 (draws_of [0, 1 / 2, 0, 1 / 2, 1 / 2, 0, 0, 1 - exp (- 1)]) (\<lambda>n. 0)"


definition w_stay :: world where
  "w_stay = world0 (draws_of [0, 1 / 2, 0, 1 / 2, 1 / 2]) (\<lambda>n. 0)"


text \<open>The detector that the run on \<open>w_back\<close> leaves, with its one capture.\<close>

definition det_captured :: detector where
  "det_captured = fst (snd (gen_capture_locs det_cube w_back))"

text \<open>
  Rate calculators: one with no transition at all, one whose only transition has weight
  zero, one that never leaves the state \<open>(2, 0, 0)\<close>.
\<close>

definition R_none :: rates where
  "R_none = \<lparr>EB = (\<lambda>n l. 1), Gamma_tot_B = (\<lambda>n l m. []), q_fn = (\<lambda>n l n' l'. 1)\<rparr>"

definition R_zero :: rates where
  "R_zero = \<lparr>EB = (\<lambda>n l. 1), Gamma_tot_B = (\<lambda>n l m. [((1, 0, 0), 0)]),
             q_fn = (\<lambda>n l n' l'. 1)\<rparr>"

definition R_loop :: rates where
  "R_loop = \<lparr>EB = (\<lambda>n l. 1), Gamma_tot_B = (\<lambda>n l m. [((2, 0, 0), 1)]),
             q_fn = (\<lambda>n l n' l'. 1)\<rparr>"

section \<open>The weighted draw\<close>

lemma getitem_member:
  "distinct (map fst d) \<Longrightarrow> (k, v) \<in> set d \<Longrightarrow> getitem d k = Inr v"
  by (simp add: getitem_def)

lemma sum_loop_items:
  "distinct (map fst d) \<Longrightarrow> set xs \<subseteq> set d \<Longrightarrow>
   sum_loop d (map fst xs) t = Inr (t + sum_list (map snd xs))"
proof (induction xs arbitrary: t)
  case Nil
  then show ?case by simp
next
  case (Cons a xs)
  obtain k v where a: "a = (k, v)" by (cases a)
  from Cons.prems a have "getitem d k = Inr v" by (auto intro: getitem_member)
  with Cons a show ?case by (simp add: add.assoc)
qed

lemma sum_dict_vals_distinct:
  "distinct (map fst d) \<Longrightarrow> sum_dict_vals d = Inr (sum_list (map snd d))"
  using sum_loop_items [of d d 0] by (simp add: sum_dict_vals_def keys_def)




lemma snd_uniform: "snd (uniform a b w) = w\<lparr>n_random := Suc (n_random w)\<rparr>"
  by (simp add: uniform_def random_py_def)

lemma key_val_by_weight_scan:
  assumes dist: "distinct (map fst d)"
  shows "key_val_by_weight d w =
     scan_loop d (fst (uniform 0 (sum_list (map snd d)) w)) (map fst d) 0 Zero 0
       (w\<lparr>n_random := Suc (n_random w)\<rparr>)"
  using snd_uniform [of 0 "sum_list (map snd d)" w]
  by (cases "uniform 0 (sum_list (map snd d)) w")
     (simp add: key_val_by_weight_def sum_dict_vals_distinct [OF dist] keys_def)




lemma scan_loop_world:
  "scan_loop d weight ks c ck cv w = (r, w') \<Longrightarrow>
     w' = w \<or> w' = print_py (Print exited_msg) w"
  by (induction ks arbitrary: c ck cv) (auto split: sum.splits if_splits)




section \<open>The entry sampler\<close>

lemma random_entrance_direction:
  "ux (fst (random_entrance D w)) = (1 - (cos_draw w)\<^sup>2) powr (1 / 2) * cos (phi_draw w)"
  "uy (fst (random_entrance D w)) = (1 - (cos_draw w)\<^sup>2) powr (1 / 2) * sin (phi_draw w)"
  "uz (fst (random_entrance D w)) = cos_draw w"
  by (simp_all add: random_entrance_def uniform_def random_py_def Let_def cos_draw_def
      phi_draw_def split: prod.splits)

lemma random_entrance_x:
  "face_draw D w < area_x D \<Longrightarrow>
   x_pos (fst (random_entrance D w)) =
     (if pi / 2 < phi_draw w \<and> phi_draw w < 3 * pi / 2 then x_max D else x_min D)"
  by (simp add: random_entrance_def uniform_def random_py_def Let_def face_draw_def
      phi_draw_def split: prod.splits)

lemma random_entrance_y:
  "\<not> face_draw D w < area_x D \<Longrightarrow> face_draw D w < area_x D + area_y D \<Longrightarrow>
   y_pos (fst (random_entrance D w)) = (if pi < phi_draw w then y_max D else y_min D)"
  by (simp add: random_entrance_def uniform_def random_py_def Let_def face_draw_def
      phi_draw_def split: prod.splits)

lemma random_entrance_z:
  "\<not> face_draw D w < area_x D \<Longrightarrow> \<not> face_draw D w < area_x D + area_y D \<Longrightarrow>
   face_draw D w \<le> area_tot D \<Longrightarrow>
   z_pos (fst (random_entrance D w)) = (if cos_draw w < 0 then z_max D else z_min D)"
  by (simp add: random_entrance_def uniform_def random_py_def Let_def face_draw_def
      cos_draw_def split: prod.splits)

lemma random_entrance_coins:
  "n_coin (snd (random_entrance D w)) = n_coin w"
  "stdout (snd (random_entrance D w)) = stdout w"
  "randoms (snd (random_entrance D w)) = randoms w"
  by (simp_all add: random_entrance_def uniform_def random_py_def Let_def split: prod.splits)

lemma random_entrance_coin_free:
  "fst (random_entrance D (w\<lparr>coins := cs\<rparr>)) = fst (random_entrance D w)"
  by (simp add: random_entrance_def uniform_def random_py_def Let_def split: prod.splits)

lemma random_entrance_keeps:
  "capture_locs (fst (random_entrance D w)) = capture_locs D"
  "x_min (fst (random_entrance D w)) = x_min D"
  "x_max (fst (random_entrance D w)) = x_max D"
  "y_min (fst (random_entrance D w)) = y_min D"
  "y_max (fst (random_entrance D w)) = y_max D"
  "z_min (fst (random_entrance D w)) = z_min D"
  "z_max (fst (random_entrance D w)) = z_max D"
  "xsec_dict (fst (random_entrance D w)) = xsec_dict D"
  "num_density (fst (random_entrance D w)) = num_density D"
  "xsec_cm (fst (random_entrance D w)) = xsec_cm D"
  "photon_energy_list (fst (random_entrance D w)) = photon_energy_list D"
  by (simp_all add: random_entrance_def uniform_def random_py_def Let_def split: prod.splits)

lemma cos_draw_range:
  assumes "0 \<le> randoms w (Suc (n_random w))" and "randoms w (Suc (n_random w)) < 1"
  shows "(cos_draw w)\<^sup>2 \<le> 1"
proof -
  have "- 1 \<le> cos_draw w" "cos_draw w \<le> 1" using assms by (simp_all add: cos_draw_def)
  then have "\<bar>cos_draw w\<bar> \<le> 1" by simp
  then show ?thesis by (simp add: abs_square_le_1)
qed

lemma unit_norm:
  fixes c s :: real
  assumes "s\<^sup>2 = 1 - c\<^sup>2"
  shows "(s * cos p)\<^sup>2 + (s * sin p)\<^sup>2 + c\<^sup>2 = 1"
proof -
  have "(s * cos p)\<^sup>2 + (s * sin p)\<^sup>2 = s\<^sup>2 * ((sin p)\<^sup>2 + (cos p)\<^sup>2)"
    by (simp only: power_mult_distrib distrib_left add.commute)
  also have "\<dots> = s\<^sup>2" by (simp only: sin_cos_squared_add mult_1_right)
  finally show ?thesis using assms by simp
qed

text \<open>
  Claim C5. After \<open>random_entrance\<close>, for a draw of \<open>rand.random()\<close> in \<open>[0, 1)\<close>
  behind \<open>cos\<close>, the direction is
  \<open>(sin\<theta> cos\<phi>, sin\<theta> sin\<phi>, cos\<theta>)\<close> with \<open>sin\<theta> = sqrt (1 - cos\<^sup>2\<theta>)\<close> for the
  drawn \<open>cos\<theta>\<close> and \<open>\<phi>\<close>, and its Euclidean norm is 1; over the reals the norm is
  exactly 1, which is within \<open>1e-9\<close> of 1.
\<close>

theorem random_entrance_unit_direction:
  assumes "0 \<le> randoms w (Suc (n_random w))" and "randoms w (Suc (n_random w)) < 1"
  shows "ux (fst (random_entrance D w)) = sqrt (1 - (cos_draw w)\<^sup>2) * cos (phi_draw w) \<and>
         uy (fst (random_entrance D w)) = sqrt (1 - (cos_draw w)\<^sup>2) * sin (phi_draw w) \<and>
         uz (fst (random_entrance D w)) = cos_draw w \<and>
         sqrt ((ux (fst (random_entrance D w)))\<^sup>2 + (uy (fst (random_entrance D w)))\<^sup>2
               + (uz (fst (random_entrance D w)))\<^sup>2) = 1 \<and>
         \<bar>sqrt ((ux (fst (random_entrance D w)))\<^sup>2 + (uy (fst (random_entrance D w)))\<^sup>2
               + (uz (fst (random_entrance D w)))\<^sup>2) - 1\<bar> \<le> 1 / 10 ^ 9"
proof -
  have nn: "0 \<le> 1 - (cos_draw w)\<^sup>2" using cos_draw_range [OF assms] by simp
  then have p: "(1 - (cos_draw w)\<^sup>2) powr (1 / 2) = sqrt (1 - (cos_draw w)\<^sup>2)"
    by (rule powr_half_sqrt)
  have x: "ux (fst (random_entrance D w)) = sqrt (1 - (cos_draw w)\<^sup>2) * cos (phi_draw w)"
    using random_entrance_direction(1) [of D w] p by simp
  have y: "uy (fst (random_entrance D w)) = sqrt (1 - (cos_draw w)\<^sup>2) * sin (phi_draw w)"
    using random_entrance_direction(2) [of D w] p by simp
  have z: "uz (fst (random_entrance D w)) = cos_draw w"
    by (rule random_entrance_direction(3))
  have s: "(sqrt (1 - (cos_draw w)\<^sup>2))\<^sup>2 = 1 - (cos_draw w)\<^sup>2" using nn by simp
  have n: "sqrt ((ux (fst (random_entrance D w)))\<^sup>2 + (uy (fst (random_entrance D w)))\<^sup>2
               + (uz (fst (random_entrance D w)))\<^sup>2) = 1"
    unfolding x y z unit_norm [OF s] by simp
  show ?thesis using x y z n by simp
qed

theorem random_entrance_unit_direction_witness:
  "0 \<le> randoms w_front (Suc (n_random w_front)) \<and> randoms w_front (Suc (n_random w_front)) < 1 \<and>
   sqrt ((ux (fst (random_entrance det_cube w_front)))\<^sup>2
         + (uy (fst (random_entrance det_cube w_front)))\<^sup>2
         + (uz (fst (random_entrance det_cube w_front)))\<^sup>2) = 1"
proof -
  have h1: "0 \<le> randoms w_front (Suc (n_random w_front))"
    by (simp add: w_front_def world0_def draws_of_def)
  have h2: "randoms w_front (Suc (n_random w_front)) < 1"
    by (simp add: w_front_def world0_def draws_of_def)
  from random_entrance_unit_direction [OF h1 h2, of det_cube]
  have c: "sqrt ((ux (fst (random_entrance det_cube w_front)))\<^sup>2
         + (uy (fst (random_entrance det_cube w_front)))\<^sup>2
         + (uz (fst (random_entrance det_cube w_front)))\<^sup>2) = 1" by blast
  show ?thesis by (rule conjI [OF h1 conjI [OF h2 c]])
qed

lemma det_cube_simps:
  "area_x det_cube = 4" "area_y det_cube = 4" "area_tot det_cube = 12"
  "x_min det_cube = - 1" "x_max det_cube = 1"
  "y_min det_cube = - 1" "y_max det_cube = 1"
  "z_min det_cube = - 1" "z_max det_cube = 1"
  "ux det_cube = 0" "uy det_cube = 0" "uz det_cube = 0"
  "capture_locs det_cube = []" "xsec_dict det_cube = dict_one"
  "num_density det_cube = 1 / 1000" "xsec_cm det_cube = 1"
  by (simp_all add: det_cube_def Detector_init_def)

lemma w_front_draws:
  "face_draw det_cube w_front = 0" "phi_draw w_front = pi" "cos_draw w_front = 0"
  "face_draw det_cube w_front_tails = 0" "phi_draw w_front_tails = pi"
  "face_draw det_cube w_back = 0" "phi_draw w_back = 0" "cos_draw w_back = 0"
  by (simp_all add: face_draw_def phi_draw_def cos_draw_def w_front_def w_front_tails_def
      w_back_def world0_def draws_of_def)

text \<open>
  Why the face follows from the direction: on the face that \<open>random_entrance\<close>
  picks, the sampled direction never points out of the detector.
\<close>

lemma cos_neg_between:
  fixes p :: real
  assumes "pi / 2 < p" and "p < 3 * pi / 2"
  shows "cos p < 0"
proof -
  have "0 < cos (p - pi)" using assms by (intro cos_gt_zero_pi) simp_all
  then show ?thesis by (simp add: cos_minus_pi)
qed

lemma cos_nonneg_outside:
  fixes p :: real
  assumes "0 \<le> p" and "p < 2 * pi" and "\<not> (pi / 2 < p \<and> p < 3 * pi / 2)"
  shows "0 \<le> cos p"
proof (cases "p \<le> pi / 2")
  case True
  then show ?thesis using assms(1) by (intro cos_ge_zero) simp_all
next
  case False
  then have "3 * pi / 2 \<le> p" using assms(3) by simp
  then have "0 \<le> cos (p - 2 * pi)" using assms(2) by (intro cos_ge_zero) simp_all
  then show ?thesis by (simp add: cos_diff)
qed

lemma phi_draw_range:
  assumes "0 \<le> randoms w (Suc (Suc (n_random w)))" and "randoms w (Suc (Suc (n_random w))) < 1"
  shows "0 \<le> phi_draw w" and "phi_draw w < 2 * pi"
  using assms by (simp_all add: phi_draw_def)

lemma random_entrance_inward:
  assumes "0 \<le> randoms w (Suc (Suc (n_random w)))" and "randoms w (Suc (Suc (n_random w))) < 1"
  shows "pi / 2 < phi_draw w \<and> phi_draw w < 3 * pi / 2 \<longrightarrow> ux (fst (random_entrance D w)) \<le> 0"
    and "\<not> (pi / 2 < phi_draw w \<and> phi_draw w < 3 * pi / 2) \<longrightarrow> 0 \<le> ux (fst (random_entrance D w))"
    and "pi < phi_draw w \<longrightarrow> uy (fst (random_entrance D w)) \<le> 0"
    and "\<not> pi < phi_draw w \<longrightarrow> 0 \<le> uy (fst (random_entrance D w))"
    and "cos_draw w < 0 \<longrightarrow> uz (fst (random_entrance D w)) < 0"
    and "\<not> cos_draw w < 0 \<longrightarrow> 0 \<le> uz (fst (random_entrance D w))"
proof -
  note r = phi_draw_range [OF assms]
  have s: "0 \<le> (1 - (cos_draw w)\<^sup>2) powr (1 / 2)" by simp
  show "pi / 2 < phi_draw w \<and> phi_draw w < 3 * pi / 2 \<longrightarrow> ux (fst (random_entrance D w)) \<le> 0"
    using cos_neg_between [of "phi_draw w"] s
    by (auto simp: random_entrance_direction(1) mult_nonneg_nonpos)
  show "\<not> (pi / 2 < phi_draw w \<and> phi_draw w < 3 * pi / 2) \<longrightarrow> 0 \<le> ux (fst (random_entrance D w))"
    using cos_nonneg_outside [OF r] s
    by (auto simp: random_entrance_direction(1))
  show "pi < phi_draw w \<longrightarrow> uy (fst (random_entrance D w)) \<le> 0"
    using sin_lt_zero [of "phi_draw w"] r(2) s
    by (auto simp: random_entrance_direction(2) mult_nonneg_nonpos)
  show "\<not> pi < phi_draw w \<longrightarrow> 0 \<le> uy (fst (random_entrance D w))"
    using sin_ge_zero [of "phi_draw w"] r(1) s
    by (auto simp: random_entrance_direction(2))
  show "cos_draw w < 0 \<longrightarrow> uz (fst (random_entrance D w)) < 0"
    by (simp add: random_entrance_direction(3))
  show "\<not> cos_draw w < 0 \<longrightarrow> 0 \<le> uz (fst (random_entrance D w))"
    by (simp add: random_entrance_direction(3))
qed

text \<open>
  Claim C3, as amended. In \<open>random_entrance\<close> the pair of opposite faces is chosen by
  comparing the draw \<open>uniform(0, area_tot)\<close> with \<open>area_x\<close> and \<open>area_x + area_y\<close>,
  so in proportion to the areas. Within the pair the face follows from the sampled
  direction: the front face when \<open>\<pi>/2 < \<phi> < 3\<pi>/2\<close> and the back face otherwise, the right
  face when \<open>\<phi> > \<pi>\<close> and the left one otherwise, the top face when \<open>cos\<theta> < 0\<close> and the
  bottom one otherwise. No coin is drawn, and the coins of the random source have no
  effect on the detector that results.
\<close>

lemma w_more_draws:
  "face_draw det_cube w_right = 6" "phi_draw w_right = 3 * pi / 2"
  "face_draw det_cube w_top = 9" "cos_draw w_top = - 1 / 2"
  by (simp_all add: face_draw_def phi_draw_def cos_draw_def w_right_def w_top_def
      world0_def draws_of_def det_cube_simps)

theorem random_entrance_face_by_direction:
  "(face_draw D w < area_x D \<longrightarrow>
      x_pos (fst (random_entrance D w)) =
        (if pi / 2 < phi_draw w \<and> phi_draw w < 3 * pi / 2 then x_max D else x_min D)) \<and>
   (\<not> face_draw D w < area_x D \<and> face_draw D w < area_x D + area_y D \<longrightarrow>
      y_pos (fst (random_entrance D w)) = (if pi < phi_draw w then y_max D else y_min D)) \<and>
   (\<not> face_draw D w < area_x D \<and> \<not> face_draw D w < area_x D + area_y D \<and>
    face_draw D w \<le> area_tot D \<longrightarrow>
      z_pos (fst (random_entrance D w)) = (if cos_draw w < 0 then z_max D else z_min D)) \<and>
   n_coin (snd (random_entrance D w)) = n_coin w \<and>
   fst (random_entrance D (w\<lparr>coins := cs\<rparr>)) = fst (random_entrance D w)"
  using random_entrance_x [of D w] random_entrance_y [of D w] random_entrance_z [of D w]
    random_entrance_coins(1) [of D w] random_entrance_coin_free [where D = D and w = w and cs = cs]
  by blast

theorem random_entrance_face_by_direction_witness:
  "face_draw det_cube w_front < area_x det_cube \<and>
   x_pos (fst (random_entrance det_cube w_front)) = x_max det_cube \<and>
   \<not> face_draw det_cube w_right < area_x det_cube \<and>
   face_draw det_cube w_right < area_x det_cube + area_y det_cube \<and>
   y_pos (fst (random_entrance det_cube w_right)) = y_max det_cube \<and>
   \<not> face_draw det_cube w_top < area_x det_cube + area_y det_cube \<and>
   face_draw det_cube w_top \<le> area_tot det_cube \<and>
   z_pos (fst (random_entrance det_cube w_top)) = z_max det_cube"
proof -
  have x1: "face_draw det_cube w_front < area_x det_cube"
    by (simp add: w_front_draws det_cube_simps)
  have y0: "\<not> face_draw det_cube w_right < area_x det_cube"
    by (simp add: w_more_draws det_cube_simps)
  have y1: "face_draw det_cube w_right < area_x det_cube + area_y det_cube"
    by (simp add: w_more_draws det_cube_simps)
  have z0: "\<not> face_draw det_cube w_top < area_x det_cube"
    by (simp add: w_more_draws det_cube_simps)
  have z1: "\<not> face_draw det_cube w_top < area_x det_cube + area_y det_cube"
    by (simp add: w_more_draws det_cube_simps)
  have z2: "face_draw det_cube w_top \<le> area_tot det_cube"
    by (simp add: w_more_draws det_cube_simps)
  have x: "x_pos (fst (random_entrance det_cube w_front)) = x_max det_cube"
    using random_entrance_face_by_direction [of det_cube w_front] x1
    by (simp add: w_front_draws)
  have y: "y_pos (fst (random_entrance det_cube w_right)) = y_max det_cube"
    using random_entrance_face_by_direction [of det_cube w_right] y0 y1
    by (simp add: w_more_draws)
  have z: "z_pos (fst (random_entrance det_cube w_top)) = z_max det_cube"
    using random_entrance_face_by_direction [of det_cube w_top] z0 z1 z2
    by (simp add: w_more_draws)
  show ?thesis
    by (rule conjI [OF x1 conjI [OF x conjI [OF y0 conjI [OF y1 conjI [OF y
          conjI [OF z1 conjI [OF z2 z]]]]]]])
qed

text \<open>
  The claim as it is written fails: with every draw but \<open>\<phi>\<close> the same, \<open>\<phi> = \<pi>\<close> enters
  by the front face and \<open>\<phi> = 0\<close> by the back face, and turning the coin changes
  nothing, while \<open>random_face\<close> follows the coin.
\<close>

theorem random_entrance_coin_counterexample:
  "x_pos (fst (random_entrance det_cube w_front)) = x_max det_cube \<and>
   x_pos (fst (random_entrance det_cube w_front_tails)) = x_max det_cube \<and>
   x_pos (fst (random_entrance det_cube w_back)) = x_min det_cube \<and>
   x_min det_cube \<noteq> x_max det_cube \<and>
   coins w_front 0 \<noteq> coins w_front_tails 0 \<and>
   coins w_back = coins w_front \<and>
   fst (random_face det_cube w_front) = Inr ''front'' \<and>
   fst (random_face det_cube w_front_tails) = Inr ''back''"
proof -
  have a: "x_pos (fst (random_entrance det_cube w_front)) = x_max det_cube"
    using random_entrance_x [of det_cube w_front] by (simp add: w_front_draws det_cube_simps)
  have b: "x_pos (fst (random_entrance det_cube w_front_tails)) = x_max det_cube"
    using random_entrance_x [of det_cube w_front_tails]
    by (simp add: w_front_draws det_cube_simps)
  have c: "x_pos (fst (random_entrance det_cube w_back)) = x_min det_cube"
    using random_entrance_x [of det_cube w_back] by (simp add: w_front_draws det_cube_simps)
  have d: "x_min det_cube \<noteq> x_max det_cube" by (simp add: det_cube_simps)
  have e: "coins w_front 0 \<noteq> coins w_front_tails 0"
    by (simp add: w_front_def w_front_tails_def world0_def)
  have f: "coins w_back = coins w_front" by (simp add: w_front_def w_back_def world0_def)
  have g: "fst (random_face det_cube w_front) = Inr ''front''"
    by (simp add: random_face_def uniform_def random_py_def randint01_def det_cube_simps
        w_front_def world0_def draws_of_def)
  have h: "fst (random_face det_cube w_front_tails) = Inr ''back''"
    by (simp add: random_face_def uniform_def random_py_def randint01_def det_cube_simps
        w_front_tails_def world0_def draws_of_def)
  show ?thesis using a b c d e f g h by blast
qed

section \<open>The capture walk\<close>

lemma keys_setitem: "set (keys (setitem d k v)) = insert k (set (keys d))"
proof (induction d)
  case Nil
  show ?case by (simp add: keys_def)
next
  case (Cons a d)
  obtain k' v' where a: "a = (k', v')" by (cases a)
  from Cons have "fst ` set (setitem d k v) = insert k (fst ` set d)" by (simp add: keys_def)
  then show ?case using a by (simp add: keys_def insert_commute)
qed

lemma getitem_key: "k \<in> set (keys d) \<Longrightarrow> \<exists>v. getitem d k = Inr v"
  by (cases "map_of d k") (auto simp: getitem_def keys_def map_of_eq_None_iff)

lemma sum_loop_total: "set ks \<subseteq> set (keys d) \<Longrightarrow> \<exists>t'. sum_loop d ks t = Inr t'"
proof (induction ks arbitrary: t)
  case Nil
  then show ?case by simp
next
  case (Cons k ks)
  then obtain v where "getitem d k = Inr v" using getitem_key [of k d] by auto
  with Cons show ?case by simp
qed

lemma sum_dict_vals_total: "\<exists>t. sum_dict_vals d = Inr t"
  unfolding sum_dict_vals_def by (rule sum_loop_total) simp

lemma scan_loop_total:
  "set ks \<subseteq> set (keys d) \<Longrightarrow> \<exists>kv. fst (scan_loop d weight ks c ck cv w) = Inr kv"
proof (induction ks arbitrary: c ck cv)
  case Nil
  then show ?case by simp
next
  case (Cons k ks)
  then obtain v where "getitem d k = Inr v" using getitem_key [of k d] by auto
  with Cons show ?case by simp
qed

lemma key_val_by_weight_total: "\<exists>kv. fst (key_val_by_weight d w) = Inr kv"
proof -
  obtain t where t: "sum_dict_vals d = Inr t" using sum_dict_vals_total by blast
  obtain weight w1 where u: "uniform 0 t w = (weight, w1)" by (cases "uniform 0 t w")
  show ?thesis using t u scan_loop_total [of "keys d" d weight 0 Zero 0 w1]
    by (simp add: key_val_by_weight_def)
qed

lemma key_val_by_weight_world:
  assumes "key_val_by_weight d w = (r, w')"
  shows "w' = w\<lparr>n_random := Suc (n_random w)\<rparr> \<or>
         w' = print_py (Print exited_msg) (w\<lparr>n_random := Suc (n_random w)\<rparr>)"
proof -
  obtain t where t: "sum_dict_vals d = Inr t" using sum_dict_vals_total by blast
  obtain weight w1 where u: "uniform 0 t w = (weight, w1)" by (cases "uniform 0 t w")
  have w1: "w1 = w\<lparr>n_random := Suc (n_random w)\<rparr>" using snd_uniform [of 0 t w] u by simp
  have "scan_loop d weight (keys d) 0 Zero 0 w1 = (r, w')"
    using assms t u by (simp add: key_val_by_weight_def)
  from scan_loop_world [OF this] show ?thesis using w1 by simp
qed

lemma walk_step_setup:
  assumes "walk_step D w = (f, D', w')"
  shows "same_setup D' D"
  using assms
  by (auto simp: walk_step_def random_py_def cap_dist_def Let_def same_setup_def
      split: if_splits sum.splits prod.splits)

lemma walk_step_captures:
  assumes "walk_step D w = (f, D', w')"
  shows "capture_locs D' = capture_locs D \<or>
         (f = Next \<and> within_bounds D (x_pos D', y_pos D', z_pos D') \<and>
          (\<exists>s. capture_locs D' = setitem (capture_locs D) (x_pos D', y_pos D', z_pos D') s))"
  using assms
  by (auto simp: walk_step_def random_py_def cap_dist_def Let_def within_bounds_def
      particle_in_det_def split: if_splits sum.splits prod.splits)

lemma walk_step_world:
  assumes "walk_step D w = (f, D', w')"
  shows "randoms w' = randoms w \<and> coins w' = coins w \<and> n_coin w' = n_coin w \<and>
         (stdout w' = stdout w \<or> stdout w' = stdout w @ [Print exited_msg])"
  using assms
  by (auto simp: walk_step_def random_py_def cap_dist_def Let_def print_py_def
      split: if_splits sum.splits prod.splits dest!: key_val_by_weight_world)

lemma same_setup_bounds: "same_setup D' D \<Longrightarrow> within_bounds D' p = within_bounds D p"
  by (simp add: same_setup_def within_bounds_def)

lemma same_setup_trans: "same_setup D2 D1 \<Longrightarrow> same_setup D1 D \<Longrightarrow> same_setup D2 D"
  by (simp add: same_setup_def)

lemma same_setup_refl: "same_setup D D"
  by (simp add: same_setup_def)

lemma walk_loop_setup:
  "walk_loop is D w = (e, D', w') \<Longrightarrow> same_setup D' D"
proof (induction "is" arbitrary: D w)
  case Nil
  then show ?case by (simp add: same_setup_refl)
next
  case (Cons i "is")
  obtain f D1 w1 where st: "walk_step D w = (f, D1, w1)" by (cases "walk_step D w")
  have s1: "same_setup D1 D" using st by (rule walk_step_setup)
  show ?case
  proof (cases f)
    case Next
    then have "walk_loop is D1 w1 = (e, D', w')" using Cons.prems st by simp
    from Cons.IH [OF this] s1 show ?thesis by (rule same_setup_trans)
  next
    case Break
    then show ?thesis using Cons.prems st s1 by simp
  next
    case (Raise x)
    then show ?thesis using Cons.prems st s1 by simp
  qed
qed

lemma walk_loop_keys:
  "walk_loop is D w = (e, D', w') \<Longrightarrow>
     set (keys (capture_locs D)) \<subseteq> set (keys (capture_locs D')) \<and>
     (\<forall>p \<in> set (keys (capture_locs D')) - set (keys (capture_locs D)). within_bounds D p)"
proof (induction "is" arbitrary: D w)
  case Nil
  then show ?case by simp
next
  case (Cons i "is")
  obtain f D1 w1 where st: "walk_step D w = (f, D1, w1)" by (cases "walk_step D w")
  have s1: "same_setup D1 D" using st by (rule walk_step_setup)
  have c1: "set (keys (capture_locs D)) \<subseteq> set (keys (capture_locs D1)) \<and>
     (\<forall>p \<in> set (keys (capture_locs D1)) - set (keys (capture_locs D)). within_bounds D p)"
    using walk_step_captures [OF st] by (auto simp: keys_setitem)
  show ?case
  proof (cases f)
    case Next
    then have "walk_loop is D1 w1 = (e, D', w')" using Cons.prems st by simp
    from Cons.IH [OF this] c1 show ?thesis
      unfolding same_setup_bounds [OF s1] by blast
  next
    case Break
    then show ?thesis using Cons.prems st c1 by simp
  next
    case (Raise x)
    then show ?thesis using Cons.prems st c1 by simp
  qed
qed

lemma walk_loop_world:
  "walk_loop is D w = (e, D', w') \<Longrightarrow>
     randoms w' = randoms w \<and> coins w' = coins w \<and> n_coin w' = n_coin w \<and>
     set (stdout w') \<subseteq> insert (Print exited_msg) (set (stdout w))"
proof (induction "is" arbitrary: D w)
  case Nil
  then show ?case by auto
next
  case (Cons i "is")
  obtain f D1 w1 where st: "walk_step D w = (f, D1, w1)" by (cases "walk_step D w")
  have c1: "randoms w1 = randoms w \<and> coins w1 = coins w \<and> n_coin w1 = n_coin w \<and>
     set (stdout w1) \<subseteq> insert (Print exited_msg) (set (stdout w))"
    using walk_step_world [OF st] by auto
  show ?case
  proof (cases f)
    case Next
    then have "walk_loop is D1 w1 = (e, D', w')" using Cons.prems st by simp
    from Cons.IH [OF this] c1 show ?thesis by auto
  next
    case Break
    then show ?thesis using Cons.prems st c1 by simp
  next
    case (Raise x)
    then show ?thesis using Cons.prems st c1 by simp
  qed
qed

lemma gen_capture_locs_walk:
  "gen_capture_locs D w =
     (if ux D = 0 \<and> uy D = 0 \<and> uz D = 0
      then walk_loop [0..<100] (fst (random_entrance D w)) (snd (random_entrance D w))
      else walk_loop [0..<100] D w)"
  by (simp add: gen_capture_locs_def split: prod.splits)

lemma gen_capture_locs_moving:
  "\<not> (ux D = 0 \<and> uy D = 0 \<and> uz D = 0) \<Longrightarrow>
     gen_capture_locs D w = walk_loop [0..<100] D w"
  by (subst gen_capture_locs_walk) (rule if_not_P)

lemma gen_capture_locs_at_rest:
  "ux D = 0 \<and> uy D = 0 \<and> uz D = 0 \<Longrightarrow>
     gen_capture_locs D w
       = walk_loop [0..<100] (fst (random_entrance D w)) (snd (random_entrance D w))"
  by (subst gen_capture_locs_walk) (rule if_P)

lemma random_entrance_within:
  "within_bounds (fst (random_entrance D w)) p = within_bounds D p"
  by (simp add: within_bounds_def random_entrance_keeps)

text \<open>
  Claim C1, as amended. Every position that \<open>gen_capture_locs\<close> adds to the keys of
  \<open>capture_locs\<close> lies within the bounds of the detector with the faces included:
  \<open>x_min \<le> x \<le> x_max\<close>, and so on each axis. This holds for every detector and
  every random source, also when the walk raises.
\<close>

theorem gen_capture_locs_within_bounds:
  "(\<forall>p \<in> set (keys (capture_locs (fst (snd (gen_capture_locs D w)))))
            - set (keys (capture_locs D)). within_bounds D p) \<and>
   (capture_locs D = [] \<longrightarrow>
      (\<forall>p \<in> set (keys (capture_locs (fst (snd (gen_capture_locs D w))))).
         within_bounds D p))"
proof -
  obtain e D' w' where g: "gen_capture_locs D w = (e, D', w')"
    by (cases "gen_capture_locs D w")
  have "\<forall>p \<in> set (keys (capture_locs D')) - set (keys (capture_locs D)). within_bounds D p"
  proof (cases "ux D = 0 \<and> uy D = 0 \<and> uz D = 0")
    case True
    then have "walk_loop [0..<100] (fst (random_entrance D w)) (snd (random_entrance D w))
        = (e, D', w')" using g gen_capture_locs_at_rest [OF True, of w] by simp
    from walk_loop_keys [OF this] show ?thesis
      by (simp add: random_entrance_keeps(1) random_entrance_within)
  next
    case False
    then have "walk_loop [0..<100] D w = (e, D', w')"
      using g gen_capture_locs_moving [OF False, of w] by simp
    from walk_loop_keys [OF this] show ?thesis by simp
  qed
  then show ?thesis using g by (simp add: keys_def)
qed





lemma walk_step_zero_division:
  "randoms w (n_random w) \<noteq> 1 \<Longrightarrow> num_density D * xsec_cm D = 0 \<Longrightarrow>
     walk_step D w = (Raise ZeroDivisionError, D, w\<lparr>n_random := Suc (n_random w)\<rparr>)"
  by (simp add: walk_step_def random_py_def cap_dist_def)


text \<open>
  Claim C7, as amended. The constructor checks nothing: for all values, zero and negative
  ones included, it returns a detector that stores them as given. A zero product of
  number density and cross section is met only in the capture walk, where the first
  free-path step raises \<open>ZeroDivisionError\<close>.
\<close>

theorem Detector_init_accepts:
  "(\<exists>D. Detector_init l wd h nd xs d = Inr D \<and> length_det D = l \<and> width D = wd \<and>
         height D = h \<and> num_density D = nd \<and> xsec_cm D = xs \<and> xsec_dict D = d) \<and>
   (\<forall>D w. num_density D * xsec_cm D = 0 \<and> randoms w (n_random w) \<noteq> 1 \<longrightarrow>
           fst (walk_step D w) = Raise ZeroDivisionError)"
  using walk_step_zero_division by (simp add: Detector_init_def)

text \<open>
  Claim C9. When the direction is exactly the zero vector, \<open>gen_capture_locs\<close> is the
  walk from the position and direction that \<open>random_entrance\<close> leaves, and the
  direction of the result is the sampled one. When the direction is not zero, it is the
  walk from the detector as it is: the entry sampler is not run, and the direction of the
  result is the one given.
\<close>

theorem gen_capture_locs_entrance:
  "(ux D = 0 \<and> uy D = 0 \<and> uz D = 0 \<longrightarrow>
      gen_capture_locs D w
        = walk_loop [0..<100] (fst (random_entrance D w)) (snd (random_entrance D w)) \<and>
      ux (fst (snd (gen_capture_locs D w))) = ux (fst (random_entrance D w)) \<and>
      uy (fst (snd (gen_capture_locs D w))) = uy (fst (random_entrance D w)) \<and>
      uz (fst (snd (gen_capture_locs D w))) = uz (fst (random_entrance D w))) \<and>
   (\<not> (ux D = 0 \<and> uy D = 0 \<and> uz D = 0) \<longrightarrow>
      gen_capture_locs D w = walk_loop [0..<100] D w \<and>
      ux (fst (snd (gen_capture_locs D w))) = ux D \<and>
      uy (fst (snd (gen_capture_locs D w))) = uy D \<and>
      uz (fst (snd (gen_capture_locs D w))) = uz D)"
proof -
  have dir: "ux (fst (snd (walk_loop is D0 w0))) = ux D0 \<and>
             uy (fst (snd (walk_loop is D0 w0))) = uy D0 \<and>
             uz (fst (snd (walk_loop is D0 w0))) = uz D0" for "is" D0 w0
  proof -
    obtain e D' w' where r: "walk_loop is D0 w0 = (e, D', w')" by (cases "walk_loop is D0 w0")
    from walk_loop_setup [OF r] show ?thesis using r by (simp add: same_setup_def)
  qed
  show ?thesis using dir gen_capture_locs_moving [of D w] gen_capture_locs_at_rest [of D w]
    by metis
qed

lemma upt_100: "[0..<100] = 0 # Suc 0 # [Suc (Suc 0)..<100]"
  by (simp add: upt_conv_Cons)

lemma key_val_dict_one:
  "randoms w (n_random w) = 0 \<Longrightarrow>
   key_val_by_weight dict_one w = (Inr (Key (2, 0, 0), 1), w\<lparr>n_random := Suc (n_random w)\<rparr>)"
  by (simp add: key_val_by_weight_def sum_dict_vals_def keys_def getitem_def dict_one_def
      uniform_def random_py_def)

lemma entrance_back:
  "random_entrance det_cube w_back = (entered det_cube, w_back\<lparr>n_random := 5\<rparr>)"
  by (simp add: random_entrance_def uniform_def random_py_def det_cube_simps w_back_def
      world0_def draws_of_def entered_def)

lemma w_back_draws:
  "randoms w_back 5 = 0" "randoms w_back 6 = 0" "randoms w_back 7 = 1 - exp (- 1)"
  "stdout w_back = []"
  by (simp_all add: w_back_def world0_def draws_of_def)

lemma step_stay:
  "walk_step (entered det_cube) (w_back\<lparr>n_random := 5\<rparr>)
     = (Next, (entered det_cube)\<lparr>capture_locs := [((- 1, 0, 0), Key (2, 0, 0))]\<rparr>,
        w_back\<lparr>n_random := 7\<rparr>)"
proof -
  have k: "key_val_by_weight dict_one (w_back\<lparr>n_random := 6\<rparr>)
      = (Inr (Key (2, 0, 0), 1), w_back\<lparr>n_random := 7\<rparr>)"
    using key_val_dict_one [of "w_back\<lparr>n_random := 6\<rparr>"] by (simp add: w_back_draws)
  show ?thesis
    by (simp add: walk_step_def random_py_def cap_dist_def particle_in_det_def entered_def
        det_cube_simps w_back_draws k Let_def)
qed

lemma step_leave:
  "walk_step ((entered det_cube)\<lparr>capture_locs := [((- 1, 0, 0), Key (2, 0, 0))]\<rparr>)
       (w_back\<lparr>n_random := 7\<rparr>)
     = (Break, (entered det_cube)\<lparr>capture_locs := [((- 1, 0, 0), Key (2, 0, 0))], x_pos := 9\<rparr>,
        w_back\<lparr>n_random := 8\<rparr>)"
  by (simp add: walk_step_def random_py_def cap_dist_def particle_in_det_def entered_def
      det_cube_simps w_back_draws Let_def)

lemma run_back:
  "gen_capture_locs det_cube w_back
     = (None, (entered det_cube)\<lparr>capture_locs := [((- 1, 0, 0), Key (2, 0, 0))], x_pos := 9\<rparr>,
        w_back\<lparr>n_random := 8\<rparr>)"
  using gen_capture_locs_at_rest [of det_cube w_back]
  by (simp add: det_cube_simps entrance_back upt_100 step_stay step_leave)

text \<open>
  The claim C1 as it is written, with strict bounds, fails: a draw \<open>u = 0\<close> gives a
  step of length 0, and the entry point on the back face, \<open>x = x_min\<close>, is recorded.
\<close>

theorem boundary_capture_counterexample:
  "fst (gen_capture_locs det_cube w_back) = None \<and>
   capture_locs det_cube = [] \<and>
   keys (capture_locs (fst (snd (gen_capture_locs det_cube w_back)))) = [(- 1, 0, 0)] \<and>
   \<not> strictly_within_bounds det_cube (- 1, 0, 0)"
  by (simp add: run_back keys_def det_cube_simps strictly_within_bounds_def entered_def)

theorem gen_capture_locs_within_bounds_witness:
  "capture_locs det_cube = [] \<and>
   (- 1, 0, 0) \<in> set (keys (capture_locs (fst (snd (gen_capture_locs det_cube w_back))))) \<and>
   within_bounds det_cube (- 1, 0, 0)"
proof -
  have e: "capture_locs det_cube = []" by (simp add: det_cube_simps)
  have m: "(- 1, 0, 0) \<in> set (keys (capture_locs (fst (snd (gen_capture_locs det_cube w_back)))))"
    by (simp add: run_back keys_def)
  from gen_capture_locs_within_bounds [of det_cube w_back] e
  have "\<forall>p \<in> set (keys (capture_locs (fst (snd (gen_capture_locs det_cube w_back))))).
          within_bounds det_cube p" by blast
  then have c: "within_bounds det_cube (- 1, 0, 0)" using m by blast
  show ?thesis by (rule conjI [OF e conjI [OF m c]])
qed

lemma exp_draw: "0 \<le> 1 - exp (- 1 :: real)" "1 - exp (- 1 :: real) < 1" "1 - exp (- 1 :: real) \<noteq> 1"
  by simp_all








theorem Detector_init_accepts_witness:
  "num_density det_zero * xsec_cm det_zero = 0 \<and> randoms w_half (n_random w_half) \<noteq> 1 \<and>
   fst (walk_step det_zero w_half) = Raise ZeroDivisionError"
proof -
  have h1: "num_density det_zero * xsec_cm det_zero = 0"
    by (simp add: det_zero_def Detector_init_def)
  have h2: "randoms w_half (n_random w_half) \<noteq> 1" by (simp add: w_half_def world0_def)
  have c: "fst (walk_step det_zero w_half) = Raise ZeroDivisionError"
    using Detector_init_accepts [of 2 2 2 0 1 dict_one] h1 h2 by blast
  show ?thesis by (rule conjI [OF h1 conjI [OF h2 c]])
qed

text \<open>
  The claim C7 as it is written fails: a negative density, a zero density and negative
  dimensions are all accepted.
\<close>

theorem Detector_init_rejects_counterexample:
  "Detector_init 2 2 2 (- 1) 1 dict_one = Inr det_neg \<and> num_density det_neg = - 1 \<and>
   Detector_init 2 2 2 0 1 dict_one = Inr det_zero \<and> num_density det_zero = 0 \<and>
   \<not> isl (Detector_init (- 2) 0 (- 2) 1 (- 1) dict_one)"
  by (simp add: det_neg_def det_zero_def Detector_init_def)

theorem gen_capture_locs_entrance_witness:
  "(ux det_cube = 0 \<and> uy det_cube = 0 \<and> uz det_cube = 0) \<and>
   gen_capture_locs det_cube w_back
     = walk_loop [0..<100] (fst (random_entrance det_cube w_back))
         (snd (random_entrance det_cube w_back)) \<and>
   \<not> (ux (entered det_cube) = 0 \<and> uy (entered det_cube) = 0 \<and> uz (entered det_cube) = 0) \<and>
   gen_capture_locs (entered det_cube) w_back = walk_loop [0..<100] (entered det_cube) w_back"
proof -
  have h1: "ux det_cube = 0 \<and> uy det_cube = 0 \<and> uz det_cube = 0" by (simp add: det_cube_simps)
  have h2: "\<not> (ux (entered det_cube) = 0 \<and> uy (entered det_cube) = 0 \<and> uz (entered det_cube) = 0)"
    by (simp add: entered_def)
  have a: "gen_capture_locs det_cube w_back
     = walk_loop [0..<100] (fst (random_entrance det_cube w_back))
         (snd (random_entrance det_cube w_back))"
    using gen_capture_locs_entrance [of det_cube w_back] h1 by blast
  have b: "gen_capture_locs (entered det_cube) w_back
     = walk_loop [0..<100] (entered det_cube) w_back"
    using gen_capture_locs_entrance [of "entered det_cube" w_back] h2 by blast
  show ?thesis by (rule conjI [OF h1 conjI [OF a conjI [OF h2 b]]])
qed

section \<open>The decay cascade and the iteration caps\<close>

lemma attention_in_simps:
  "\<not> attention_in []" "\<not> attention_in [Print t]" "attention_in [PrintInt attention_msg n]"
  "attention_in (m1 @ m2) = (attention_in m1 \<or> attention_in m2)"
  by (auto simp: attention_in_def)

lemma key_val_by_weight_prints:
  assumes "key_val_by_weight d w = (r, w')"
  shows "n_random w' = Suc (n_random w) \<and> randoms w' = randoms w \<and>
         (\<exists>m. stdout w' = stdout w @ m \<and> \<not> attention_in m)"
proof -
  from key_val_by_weight_world [OF assms] show ?thesis
  proof
    assume "w' = w\<lparr>n_random := Suc (n_random w)\<rparr>"
    then have "stdout w' = stdout w @ []" "n_random w' = Suc (n_random w)" "randoms w' = randoms w"
      by simp_all
    then show ?thesis using attention_in_simps(1) by blast
  next
    assume "w' = print_py (Print exited_msg) (w\<lparr>n_random := Suc (n_random w)\<rparr>)"
    then have "stdout w' = stdout w @ [Print exited_msg]" "n_random w' = Suc (n_random w)"
      "randoms w' = randoms w"
      by (simp_all add: print_py_def)
    then show ?thesis using attention_in_simps(2) by blast
  qed
qed

lemma decay_step_effect:
  assumes "decay_step R i s D w = (f, s', D', w')"
  shows "\<exists>m. stdout w' = stdout w @ m \<and>
           (if f = Next
            then (\<exists>e. photon_energy_list D' = photon_energy_list D @ [e]) \<and>
                 (attention_in m \<longleftrightarrow> i = 999)
            else photon_energy_list D' = photon_energy_list D \<and> \<not> attention_in m)"
proof -
  obtain n l m where s: "s = (n, l, m)" by (cases s)
  show ?thesis
  proof (cases "n \<le> 1")
    case True
    then have "f = Break" "D' = D" "w' = w" using assms s by (simp_all add: decay_step_def)
    then show ?thesis using attention_in_simps(1) by auto
  next
    case False
    obtain t where t: "sum_dict_vals (Gamma_tot_B R n l m) = Inr t"
      using sum_dict_vals_total by blast
    obtain r w1 where k: "key_val_by_weight (Gamma_tot_B R n l m) w = (r, w1)"
      by (cases "key_val_by_weight (Gamma_tot_B R n l m) w")
    from key_val_by_weight_prints [OF k] obtain m1 where
      m1: "stdout w1 = stdout w @ m1" "\<not> attention_in m1" by blast
    obtain ks v where r: "r = Inr (ks, v)"
      using key_val_by_weight_total [of "Gamma_tot_B R n l m" w] k by (cases r) auto
    show ?thesis
    proof (cases ks)
      case Zero
      then have "f = Raise TypeError" "D' = D" "w' = w1"
        using assms s False t k r by (simp_all add: decay_step_def)
      then show ?thesis using m1 by auto
    next
      case (Key new_state)
      obtain nn nl nm where ns: "new_state = (nn, nl, nm)" by (cases new_state)
      have f: "f = Next" 
        and D': "D' = D\<lparr>photon_energy_list := photon_energy_list D @ [q_fn R n l nn nl]\<rparr>"
        and w': "w' = (if i = 999 then print_py (PrintInt attention_msg nn) w1 else w1)"
        using assms s False t k r Key ns by (simp_all add: decay_step_def Let_def)
      show ?thesis
      proof (cases "i = 999")
        case True
        then have "stdout w' = stdout w @ (m1 @ [PrintInt attention_msg nn])"
          using w' m1 by (simp add: print_py_def)
        moreover have "attention_in (m1 @ [PrintInt attention_msg nn])"
          by (simp add: attention_in_simps)
        ultimately show ?thesis using f D' True by auto
      next
        case False
        then have "stdout w' = stdout w @ m1" using w' m1 by simp
        then show ?thesis using f D' False m1(2) by auto
      qed
    qed
  qed
qed

lemma decay_loop_effect:
  "decay_loop R is s D w = (e, D', w') \<Longrightarrow>
     \<exists>es m. photon_energy_list D' = photon_energy_list D @ es \<and> length es \<le> length is \<and>
            stdout w' = stdout w @ m \<and>
            (attention_in m \<longleftrightarrow> 999 \<in> set (take (length es) is)) \<and>
            (length es = length is \<longrightarrow> e = None)"
proof (induction "is" arbitrary: s D w)
  case Nil
  then have "photon_energy_list D' = photon_energy_list D @ []" "stdout w' = stdout w @ []"
    "e = None" by simp_all
  then show ?case using attention_in_simps(1) by (intro exI [of _ "[]"]) simp
next
  case (Cons i "is")
  obtain f s1 D1 w1 where st: "decay_step R i s D w = (f, s1, D1, w1)"
    by (cases "decay_step R i s D w")
  from decay_step_effect [OF st] obtain m1 where
    m1: "stdout w1 = stdout w @ m1"
      "if f = Next
       then (\<exists>e. photon_energy_list D1 = photon_energy_list D @ [e]) \<and>
            (attention_in m1 \<longleftrightarrow> i = 999)
       else photon_energy_list D1 = photon_energy_list D \<and> \<not> attention_in m1"
    by blast
  show ?case
  proof (cases "f = Next")
    case True
    then have rec: "decay_loop R is s1 D1 w1 = (e, D', w')" using Cons.prems st by simp
    from m1(2) True obtain e1 where
      e1: "photon_energy_list D1 = photon_energy_list D @ [e1]" and a1: "attention_in m1 \<longleftrightarrow> i = 999"
      by auto
    from Cons.IH [OF rec] obtain es m where
      r: "photon_energy_list D' = photon_energy_list D1 @ es" "length es \<le> length is"
        "stdout w' = stdout w1 @ m"
        "attention_in m \<longleftrightarrow> 999 \<in> set (take (length es) is)"
        "length es = length is \<longrightarrow> e = None" by blast
    have "photon_energy_list D' = photon_energy_list D @ (e1 # es)" using r(1) e1 by simp
    moreover have "length (e1 # es) \<le> length (i # is)" using r(2) by simp
    moreover have "stdout w' = stdout w @ (m1 @ m)" using r(3) m1(1) by simp
    moreover have "attention_in (m1 @ m) \<longleftrightarrow> 999 \<in> set (take (length (e1 # es)) (i # is))"
      using a1 r(4) by (auto simp: attention_in_simps)
    moreover have "length (e1 # es) = length (i # is) \<longrightarrow> e = None" using r(5) by simp
    ultimately show ?thesis by blast
  next
    case False
    then have "D' = D1" "w' = w1" using Cons.prems st by (cases f; simp)+
    then have "photon_energy_list D' = photon_energy_list D @ []" "stdout w' = stdout w @ m1"
      "\<not> attention_in m1"
      using m1 False by simp_all
    then show ?thesis by (intro exI [of _ "[]"] exI [of _ m1]) simp
  qed
qed

lemma last_index_taken: "999 \<in> set (take k [0..<1000]) \<longleftrightarrow> 1000 \<le> k"
proof (cases "k \<le> 1000")
  case True
  then have "take k [0..<1000] = [0..<k]" by (simp add: take_upt)
  then show ?thesis using True by auto
next
  case False
  then have "take k [0..<1000] = [0..<1000]" by simp
  then show ?thesis using False by simp
qed

lemma walk_step_stay:
  assumes "\<forall>k \<ge> n_random w. randoms w k = 0" and "particle_in_det D"
    and "xsec_dict D = dict_one" and "num_density D * xsec_cm D \<noteq> 0"
  shows "\<exists>D1. walk_step D w = (Next, D1, w\<lparr>n_random := Suc (Suc (n_random w))\<rparr>) \<and>
              particle_in_det D1 \<and> xsec_dict D1 = dict_one \<and>
              num_density D1 * xsec_cm D1 \<noteq> 0"
proof -
  have r0: "randoms w (n_random w) = 0" and r1: "randoms w (Suc (n_random w)) = 0"
    using assms(1) by simp_all
  have k: "key_val_by_weight dict_one (w\<lparr>n_random := Suc (n_random w)\<rparr>)
      = (Inr (Key (2, 0, 0), 1), w\<lparr>n_random := Suc (Suc (n_random w))\<rparr>)"
    using key_val_dict_one [of "w\<lparr>n_random := Suc (n_random w)\<rparr>"] r1 by simp
  have c: "cap_dist D 0 = Inr 0" using assms(4) by (simp add: cap_dist_def)
  show ?thesis using assms(2,3,4) r0 k c
    by (simp add: walk_step_def random_py_def particle_in_det_def Let_def)
qed

lemma walk_loop_stay:
  assumes "\<forall>k \<ge> n_random w. randoms w k = 0" and "particle_in_det D"
    and "xsec_dict D = dict_one" and "num_density D * xsec_cm D \<noteq> 0"
  shows "\<exists>D'. walk_loop is D w = (None, D', w\<lparr>n_random := n_random w + 2 * length is\<rparr>) \<and>
              particle_in_det D'"
  using assms
proof (induction "is" arbitrary: D w)
  case Nil
  then show ?case by simp
next
  case (Cons i "is")
  from walk_step_stay [OF Cons.prems] obtain D1 where
    st: "walk_step D w = (Next, D1, w\<lparr>n_random := Suc (Suc (n_random w))\<rparr>)"
    and p: "particle_in_det D1" "xsec_dict D1 = dict_one" "num_density D1 * xsec_cm D1 \<noteq> 0"
    by blast
  let ?w1 = "w\<lparr>n_random := Suc (Suc (n_random w))\<rparr>"
  have z: "\<forall>k \<ge> n_random ?w1. randoms ?w1 k = 0" using Cons.prems(1) by simp
  from Cons.IH [OF z p] obtain D' where
    "walk_loop is D1 ?w1 = (None, D', ?w1\<lparr>n_random := n_random ?w1 + 2 * length is\<rparr>)"
    "particle_in_det D'" by blast
  then show ?case using st by simp
qed

lemma entrance_stay:
  "random_entrance det_cube w_stay = (entered det_cube, w_stay\<lparr>n_random := 5\<rparr>)"
  by (simp add: random_entrance_def uniform_def random_py_def det_cube_simps w_stay_def
      world0_def draws_of_def entered_def)

lemma w_stay_zeros: "\<forall>k \<ge> n_random (w_stay\<lparr>n_random := 5\<rparr>). randoms (w_stay\<lparr>n_random := 5\<rparr>) k = 0"
  by (simp add: w_stay_def world0_def draws_of_def)

lemma entered_stays:
  "particle_in_det (entered det_cube)" "xsec_dict (entered det_cube) = dict_one"
  "num_density (entered det_cube) * xsec_cm (entered det_cube) \<noteq> 0"
  by (simp_all add: entered_def particle_in_det_def det_cube_simps)

text \<open>
  The claim C8 as it is written fails for the capture walk. With draws \<open>u = 0\<close> the
  particle stays on its entry face; each iteration takes two draws, the entry took five,
  and the walk ends after 205 draws, inside the detector, with no exception and nothing
  printed: it has used up \<open>range(100)\<close>. A range of 101 would have gone on to 207 draws.
\<close>

theorem silent_cap_counterexample:
  "fst (gen_capture_locs det_cube w_stay) = None \<and>
   n_random (snd (snd (gen_capture_locs det_cube w_stay))) = 205 \<and>
   stdout (snd (snd (gen_capture_locs det_cube w_stay))) = [] \<and>
   particle_in_det (fst (snd (gen_capture_locs det_cube w_stay))) \<and>
   n_random (snd (snd (walk_loop [0..<101] (entered det_cube) (w_stay\<lparr>n_random := 5\<rparr>)))) = 207"
proof -
  from walk_loop_stay [OF w_stay_zeros entered_stays, of "[0..<100]"]
  obtain D' where a: "walk_loop [0..<100] (entered det_cube) (w_stay\<lparr>n_random := 5\<rparr>)
      = (None, D', w_stay\<lparr>n_random := 205\<rparr>)" "particle_in_det D'" by auto
  from walk_loop_stay [OF w_stay_zeros entered_stays, of "[0..<101]"]
  obtain D'' where b: "walk_loop [0..<101] (entered det_cube) (w_stay\<lparr>n_random := 5\<rparr>)
      = (None, D'', w_stay\<lparr>n_random := 207\<rparr>)" by auto
  have g: "gen_capture_locs det_cube w_stay = (None, D', w_stay\<lparr>n_random := 205\<rparr>)"
    using gen_capture_locs_at_rest [of det_cube w_stay] a(1)
    by (simp add: det_cube_simps entrance_stay)
  have s: "stdout w_stay = []" by (simp add: w_stay_def world0_def)
  show ?thesis using g a(2) b s by simp
qed

lemma gen_capture_locs_prints:
  "set (stdout (snd (snd (gen_capture_locs D w)))) \<subseteq> insert (Print exited_msg) (set (stdout w)) \<and>
   set (keys (capture_locs D)) \<subseteq> set (keys (capture_locs (fst (snd (gen_capture_locs D w)))))"
proof -
  obtain e D' w' where g: "gen_capture_locs D w = (e, D', w')"
    by (cases "gen_capture_locs D w")
  show ?thesis
  proof (cases "ux D = 0 \<and> uy D = 0 \<and> uz D = 0")
    case True
    then have r: "walk_loop [0..<100] (fst (random_entrance D w)) (snd (random_entrance D w))
        = (e, D', w')" using g gen_capture_locs_at_rest [OF True, of w] by simp
    from walk_loop_keys [OF r] walk_loop_world [OF r] show ?thesis
      using g by (simp add: random_entrance_keeps(1) random_entrance_coins(2))
  next
    case False
    then have r: "walk_loop [0..<100] D w = (e, D', w')"
      using g gen_capture_locs_moving [OF False, of w] by simp
    from walk_loop_keys [OF r] walk_loop_world [OF r] show ?thesis using g by simp
  qed
qed

text \<open>
  Claim C8, as amended. The decay cascade of one capture, \<open>for i in range(1000)\<close>, keeps
  the photon energies it had and appends one per transition; it prints the line
  \<open>ATTENTION: Did not finish decay\<close> exactly when all 1000 iterations have run, that is
  when it appended 1000 energies. The capture walk keeps the capture positions it had, and
  prints nothing of its own: the only line that can appear is the error line of the
  weighted draw, so a walk that uses up its 100 iterations ends silently, with no
  diagnostic and no flag.
\<close>

theorem truncation_signal:
  "(decay_loop R [0..<1000] s D w = (e, D', w') \<longrightarrow>
      (\<exists>es m. photon_energy_list D' = photon_energy_list D @ es \<and>
              stdout w' = stdout w @ m \<and>
              (attention_in m \<longleftrightarrow> length es = 1000))) \<and>
   set (stdout (snd (snd (gen_capture_locs D0 w0))))
     \<subseteq> insert (Print exited_msg) (set (stdout w0)) \<and>
   set (keys (capture_locs D0))
     \<subseteq> set (keys (capture_locs (fst (snd (gen_capture_locs D0 w0)))))"
proof -
  have "\<exists>es m. photon_energy_list D' = photon_energy_list D @ es \<and>
              stdout w' = stdout w @ m \<and> (attention_in m \<longleftrightarrow> length es = 1000)"
    if r: "decay_loop R [0..<1000] s D w = (e, D', w')"
  proof -
    from decay_loop_effect [OF r] obtain es m where
      a: "photon_energy_list D' = photon_energy_list D @ es" "length es \<le> length [0..<1000]"
        "stdout w' = stdout w @ m"
        "attention_in m \<longleftrightarrow> 999 \<in> set (take (length es) [0..<1000])" by blast
    have "attention_in m \<longleftrightarrow> length es = 1000"
      using a(2,4) unfolding last_index_taken by auto
    with a(1,3) show ?thesis by blast
  qed
  then show ?thesis using gen_capture_locs_prints [of D0 w0] by blast
qed

lemma key_val_dict_one_le:
  "randoms w (n_random w) \<le> 1 \<Longrightarrow>
   key_val_by_weight dict_one w = (Inr (Key (2, 0, 0), 1), w\<lparr>n_random := Suc (n_random w)\<rparr>)"
  by (simp add: key_val_by_weight_def sum_dict_vals_def keys_def getitem_def dict_one_def
      uniform_def random_py_def)

lemma decay_step_stuck:
  assumes "\<forall>k. randoms w k \<le> 1"
  shows "\<exists>w1. decay_step R_loop i (2, 0, 0) D w
           = (Next, (2, 0, 0), D\<lparr>photon_energy_list := photon_energy_list D @ [1]\<rparr>, w1) \<and>
              randoms w1 = randoms w"
proof -
  have k: "key_val_by_weight [((2, 0, 0) :: qstate, 1)] w
      = (Inr (Key (2, 0, 0), 1), w\<lparr>n_random := Suc (n_random w)\<rparr>)"
    using key_val_dict_one_le [of w] assms by (simp add: dict_one_def)
  have t: "sum_dict_vals [((2, 0, 0) :: qstate, 1 :: real)] = Inr 1"
    by (simp add: sum_dict_vals_def keys_def getitem_def)
  show ?thesis
    by (simp add: decay_step_def R_loop_def k t print_py_def)
qed

lemma decay_loop_stuck:
  assumes "\<forall>k. randoms w k \<le> 1"
  shows "\<exists>D' w'. decay_loop R_loop is (2, 0, 0) D w = (None, D', w') \<and>
           length (photon_energy_list D') = length (photon_energy_list D) + length is"
  using assms
proof (induction "is" arbitrary: D w)
  case Nil
  then show ?case by simp
next
  case (Cons i "is")
  from decay_step_stuck [OF Cons.prems, of i D] obtain w1 where
    st: "decay_step R_loop i (2, 0, 0) D w
           = (Next, (2, 0, 0), D\<lparr>photon_energy_list := photon_energy_list D @ [1]\<rparr>, w1)"
    and r: "randoms w1 = randoms w" by blast
  have "\<forall>k. randoms w1 k \<le> 1" using Cons.prems r by simp
  from Cons.IH [OF this, of "D\<lparr>photon_energy_list := photon_energy_list D @ [1]\<rparr>"]
  show ?case using st by auto
qed

theorem truncation_signal_witness:
  "attention_in (stdout (snd (snd (decay_loop R_loop [0..<1000] (2, 0, 0) det_cube w_half))))"
proof -
  have h: "\<forall>k. randoms w_half k \<le> 1" by (simp add: w_half_def world0_def)
  from decay_loop_stuck [OF h, of "[0..<1000]" det_cube] obtain D' w' where
    r: "decay_loop R_loop [0..<1000] (2, 0, 0) det_cube w_half = (None, D', w')"
    and n: "length (photon_energy_list D') = length (photon_energy_list det_cube) + 1000"
    by auto
  from truncation_signal [of R_loop "(2, 0, 0)" det_cube w_half None D' w'] r
  obtain es m where a: "photon_energy_list D' = photon_energy_list det_cube @ es"
    "stdout w' = stdout w_half @ m" "attention_in m \<longleftrightarrow> length es = 1000" by blast
  have "length es = 1000" using n a(1) by simp
  then have "attention_in m" using a(3) by simp
  moreover have "stdout w' = m" using a(2) by (simp add: w_half_def world0_def)
  ultimately show ?thesis using r by simp
qed

lemma decay_step_draws:
  assumes "1 < n"
  shows "n_random (snd (snd (snd (decay_step R i (n, l, m) D w)))) = Suc (n_random w)"
proof -
  obtain t where t: "sum_dict_vals (Gamma_tot_B R n l m) = Inr t"
    using sum_dict_vals_total by blast
  obtain r w1 where k: "key_val_by_weight (Gamma_tot_B R n l m) w = (r, w1)"
    by (cases "key_val_by_weight (Gamma_tot_B R n l m) w")
  have n1: "n_random w1 = Suc (n_random w)" using key_val_by_weight_prints [OF k] by simp
  obtain ks v where r: "r = Inr (ks, v)"
    using key_val_by_weight_total [of "Gamma_tot_B R n l m" w] k by (cases r) auto
  show ?thesis using assms t k r n1
    by (cases ks) (auto simp: decay_step_def Let_def print_py_def split: prod.splits)
qed

lemma key_val_by_weight_empty:
  "key_val_by_weight [] w
     = (Inr (Zero, 0), print_py (Print exited_msg) (w\<lparr>n_random := Suc (n_random w)\<rparr>))"
  by (simp add: key_val_by_weight_def sum_dict_vals_def keys_def uniform_def random_py_def)

lemma decay_step_empty:
  assumes "1 < n" and "Gamma_tot_B R n l m = []"
  shows "decay_step R i (n, l, m) D w
     = (Raise TypeError, (n, l, m), D,
        print_py (Print exited_msg) (w\<lparr>n_random := Suc (n_random w)\<rparr>))"
  using assms
  by (simp add: decay_step_def key_val_by_weight_empty sum_dict_vals_def keys_def)

lemma key_val_by_weight_all_zero:
  assumes "distinct (map fst ((s, v) # rest))" and "\<forall>x \<in> snd ` set ((s, v) # rest). x = 0"
  shows "key_val_by_weight ((s, v) # rest) w
           = (Inr (Key s, v), w\<lparr>n_random := Suc (n_random w)\<rparr>)"
proof -
  have z: "sum_list (map snd ((s, v) # rest)) = 0" using assms(2) by (induction rest) auto
  have v: "v = 0" using assms(2) by simp
  have g: "getitem ((s, v) # rest) s = Inr v" by (simp add: getitem_def)
  have u: "fst (uniform 0 0 w) = 0" by (simp add: uniform_def random_py_def)
  show ?thesis
    using key_val_by_weight_scan [OF assms(1), of w] g v u unfolding z by simp
qed

text \<open>
  Claim C6, as amended. In the decay cascade nothing inspects the mapping that the rate
  calculator returns before the weighted draw: for every state with \<open>n > 1\<close> the draw
  is made, and one value of the random source is used. Over an empty mapping the scan of
  the draw finds no key and the code after its loop prints the error line; no photon
  energy is added. Over a mapping whose weights are all zero the draw is against a total
  weight of 0 and takes the first transition listed.
\<close>

theorem decay_step_draws_unchecked:
  "(1 < n \<longrightarrow>
      n_random (snd (snd (snd (decay_step R i (n, l, m) D w)))) = Suc (n_random w)) \<and>
   (1 < n \<and> Gamma_tot_B R n l m = [] \<longrightarrow>
      stdout (snd (snd (snd (decay_step R i (n, l, m) D w)))) = stdout w @ [Print exited_msg] \<and>
      fst (snd (snd (decay_step R i (n, l, m) D w))) = D) \<and>
   (1 < n \<and> Gamma_tot_B R n l m = (s, v) # rest \<and> distinct (map fst ((s, v) # rest)) \<and>
    (\<forall>x \<in> snd ` set ((s, v) # rest). x = 0) \<longrightarrow>
      fst (key_val_by_weight (Gamma_tot_B R n l m) w) = Inr (Key s, v) \<and>
      fst (decay_step R i (n, l, m) D w) = Next \<and>
      fst (snd (decay_step R i (n, l, m) D w)) = s)"
proof -
  have a: "1 < n \<longrightarrow>
      n_random (snd (snd (snd (decay_step R i (n, l, m) D w)))) = Suc (n_random w)"
    using decay_step_draws by blast
  have b: "1 < n \<and> Gamma_tot_B R n l m = [] \<longrightarrow>
      stdout (snd (snd (snd (decay_step R i (n, l, m) D w)))) = stdout w @ [Print exited_msg] \<and>
      fst (snd (snd (decay_step R i (n, l, m) D w))) = D"
    using decay_step_empty [of n R l m i D w] by (auto simp: print_py_def)
  have c: "fst (key_val_by_weight (Gamma_tot_B R n l m) w) = Inr (Key s, v) \<and>
      fst (decay_step R i (n, l, m) D w) = Next \<and>
      fst (snd (decay_step R i (n, l, m) D w)) = s"
    if h: "1 < n" "Gamma_tot_B R n l m = (s, v) # rest" "distinct (map fst ((s, v) # rest))"
      "\<forall>x \<in> snd ` set ((s, v) # rest). x = 0"
  proof -
    have k: "key_val_by_weight (Gamma_tot_B R n l m) w
        = (Inr (Key s, v), w\<lparr>n_random := Suc (n_random w)\<rparr>)"
      using key_val_by_weight_all_zero [OF h(3,4), of w] h(2) by simp
    obtain t where t: "sum_dict_vals (Gamma_tot_B R n l m) = Inr t"
      using sum_dict_vals_total by blast
    obtain nn nl nm where s: "s = (nn, nl, nm)" by (cases s)
    show ?thesis using h(1) k t s by (simp add: decay_step_def Let_def)
  qed
  from a b c show ?thesis by blast
qed

lemma upt_1000: "[0..<1000] = 0 # [Suc 0..<1000]"
  by (rule upt_conv_Cons) simp

lemma det_captured_eq:
  "det_captured
     = (entered det_cube)\<lparr>capture_locs := [((- 1, 0, 0), Key (2, 0, 0))], x_pos := 9\<rparr>"
  by (simp add: det_captured_def run_back)

text \<open>
  The claim C6 as it is written fails: for the state \<open>(2, 0, 0)\<close> captured by the walk
  above and a rate calculator that returns no transition, the draw is made (the random
  source moves from 0 to 1 draws), its error line is printed, and only then the cascade
  stops, on a \<open>TypeError\<close>.
\<close>

theorem unchecked_draw_counterexample:
  "Gamma_tot_B R_none 2 0 0 = [] \<and>
   capture_locs det_captured = [((- 1, 0, 0), Key (2, 0, 0))] \<and>
   n_random w_half = 0 \<and>
   fst (photon_generation R_none det_captured w_half) = Some TypeError \<and>
   n_random (snd (snd (photon_generation R_none det_captured w_half))) = 1 \<and>
   stdout (snd (snd (photon_generation R_none det_captured w_half))) = [Print exited_msg]"
proof -
  have g: "Gamma_tot_B R_none 2 0 0 = []" by (simp add: R_none_def)
  have c: "capture_locs det_captured = [((- 1, 0, 0), Key (2, 0, 0))]"
    by (simp add: det_captured_eq)
  have n: "n_random w_half = 0" "stdout w_half = []" by (simp_all add: w_half_def world0_def)
  let ?D1 = "det_captured\<lparr>photon_energy_list := photon_energy_list det_captured @ [1]\<rparr>"
  have d: "decay_loop R_none [0..<1000] (2, 0, 0) ?D1 w_half
      = (Some TypeError, ?D1, print_py (Print exited_msg) (w_half\<lparr>n_random := 1\<rparr>))"
    using decay_step_empty [of 2 R_none 0 0 0 ?D1 w_half] g n(1) by (simp add: upt_1000)
  have e: "EB R_none 2 0 = 1" by (simp add: R_none_def)
  have p: "photon_generation R_none det_captured w_half
      = (Some TypeError, ?D1, print_py (Print exited_msg) (w_half\<lparr>n_random := 1\<rparr>))"
    using d by (simp add: photon_generation_def c keys_def getitem_def e)
  show ?thesis using g c n p by (simp add: print_py_def)
qed

theorem decay_step_draws_unchecked_witness:
  "1 < (2 :: int) \<and> Gamma_tot_B R_none 2 0 0 = [] \<and>
   n_random (snd (snd (snd (decay_step R_none 0 (2, 0, 0) det_captured w_half))))
     = Suc (n_random w_half) \<and>
   stdout (snd (snd (snd (decay_step R_none 0 (2, 0, 0) det_captured w_half))))
     = stdout w_half @ [Print exited_msg] \<and>
   Gamma_tot_B R_zero 2 0 0 = [((1, 0, 0), 0)] \<and>
   distinct (map fst [((1, 0, 0) :: qstate, 0 :: real)]) \<and>
   fst (decay_step R_zero 0 (2, 0, 0) det_captured w_half) = Next \<and>
   fst (snd (decay_step R_zero 0 (2, 0, 0) det_captured w_half)) = (1, 0, 0)"
proof -
  have h1: "1 < (2 :: int)" by simp
  have h2: "Gamma_tot_B R_none 2 0 0 = []" by (simp add: R_none_def)
  have h3: "Gamma_tot_B R_zero 2 0 0 = [((1, 0, 0), 0)]" by (simp add: R_zero_def)
  have h4: "distinct (map fst [((1, 0, 0) :: qstate, 0 :: real)])" by simp
  have h5: "\<forall>x \<in> snd ` set [((1, 0, 0) :: qstate, 0 :: real)]. x = 0" by simp
  have a: "n_random (snd (snd (snd (decay_step R_none 0 (2, 0, 0) det_captured w_half))))
     = Suc (n_random w_half)"
    using decay_step_draws_unchecked [where n = 2 and R = R_none and i = 0 and l = 0 and m = 0
        and D = det_captured and w = w_half] h1
    by blast
  have b: "stdout (snd (snd (snd (decay_step R_none 0 (2, 0, 0) det_captured w_half))))
     = stdout w_half @ [Print exited_msg]"
    using decay_step_draws_unchecked [where n = 2 and R = R_none and i = 0 and l = 0 and m = 0
        and D = det_captured and w = w_half]
      h1 h2 by blast
  have c: "fst (decay_step R_zero 0 (2, 0, 0) det_captured w_half) = Next \<and>
     fst (snd (decay_step R_zero 0 (2, 0, 0) det_captured w_half)) = (1, 0, 0)"
    using decay_step_draws_unchecked [where n = 2 and R = R_zero and i = 0 and l = 0 and m = 0
        and D = det_captured and w = w_half and s = "(1, 0, 0)" and v = 0 and rest = "[]"] h1 h3 h4 h5
    by blast
  show ?thesis
    using conjI [OF h1 conjI [OF h2 conjI [OF a conjI [OF b conjI [OF h3 conjI [OF h4 c]]]]]]
    by simp
qed

end
